theory Spec2Isabelle
  imports Complex_Main "HOL-Library.AList"
begin

section \<open>Strings and built-ins of the source language\<close>

text \<open>
  The program is \<^verbatim>\<open>scripts/build_data.py\<close>. Its strings are sequences of code points;
  here a string is a \<^typ>\<open>string\<close> whose characters stand for the code points 0..255.
  On that range the built-ins used by the script are as follows:
  \<^item> \<^verbatim>\<open>str.isspace\<close>, \<^verbatim>\<open>str.strip()\<close> and the pattern \<^verbatim>\<open>\s\<close> know the code points
    9..13, 28..32, 133 and 160;
  \<^item> \<^verbatim>\<open>int(str)\<close> skips the code points 9..13, 32, 133 and 160 at both ends, and not
    28..31;
  \<^item> the pattern \<^verbatim>\<open>\d\<close> and \<^verbatim>\<open>int(str)\<close> know the digits 48..57 only;
  \<^item> \<^verbatim>\<open>str.upper()\<close> changes the letters 97..122, 224..246 and 248..254 (to the code
    point 32 below), 181 (to 924), 255 (to 376) and 223 (to the two characters
    \<^verbatim>\<open>SS\<close>), so its result is a list of code points that may leave the range;
  \<^item> a pattern compiled with \<^verbatim>\<open>re.I\<close> lets a letter of \<^verbatim>\<open>A..Z\<close>, \<^verbatim>\<open>a..z\<close> match its
    other case and no other code point of the range.
  Integers are unbounded (\<^typ>\<open>int\<close>). \<^verbatim>\<open>int(str)\<close> raises \<^verbatim>\<open>ValueError\<close> on more
  digits than the interpreter's limit, which is 4300 unless the interpreter is
  started otherwise; the script does not change it.
\<close>

definition ord :: "char \<Rightarrow> int" where
  "ord c = int (of_char c)"

definition is_space :: "char \<Rightarrow> bool" where
  "is_space c = ((9 \<le> ord c \<and> ord c \<le> 13) \<or> (28 \<le> ord c \<and> ord c \<le> 32)
                 \<or> ord c = 133 \<or> ord c = 160)"

definition is_digit :: "char \<Rightarrow> bool" where
  "is_digit c = (48 \<le> ord c \<and> ord c \<le> 57)"

definition is_upper_AZ :: "char \<Rightarrow> bool" where
  "is_upper_AZ c = (65 \<le> ord c \<and> ord c \<le> 90)"

definition is_lower_az :: "char \<Rightarrow> bool" where
  "is_lower_az c = (97 \<le> ord c \<and> ord c \<le> 122)"

definition is_alpha :: "char \<Rightarrow> bool" where
  "is_alpha c = (is_upper_AZ c \<or> is_lower_az c)"

text \<open>\<^verbatim>\<open>c.upper()\<close> for one character, and \<^verbatim>\<open>s.upper()\<close>, as code points.\<close>

definition upper_codes :: "char \<Rightarrow> int list" where
  "upper_codes c =
     (let n = ord c
      in if (97 \<le> n \<and> n \<le> 122) \<or> (224 \<le> n \<and> n \<le> 254 \<and> n \<noteq> 247) then [n - 32]
         else if n = 181 then [924]
         else if n = 223 then [83, 83]
         else if n = 255 then [376]
         else [n])"

definition upper :: "string \<Rightarrow> int list" where
  "upper s = concat (map upper_codes s)"

text \<open>
  The comparison of \<^verbatim>\<open>re.I\<close>: two strings match without regard to case when they are
  equal once the letters \<^verbatim>\<open>A..Z\<close> are replaced by \<^verbatim>\<open>a..z\<close>.
\<close>

definition ignore_case_char :: "char \<Rightarrow> char" where
  "ignore_case_char c = (if is_upper_AZ c then char_of (ord c + 32) else c)"

definition ignore_case :: "string \<Rightarrow> string" where
  "ignore_case s = map ignore_case_char s"

text \<open>\<^verbatim>\<open>s.strip()\<close>: whitespace removed at both ends.\<close>

definition strip :: "string \<Rightarrow> string" where
  "strip s = rev (dropWhile is_space (rev (dropWhile is_space s)))"

text \<open>\<^verbatim>\<open>s.lstrip("/")\<close>.\<close>

definition lstrip_slash :: "string \<Rightarrow> string" where
  "lstrip_slash s = dropWhile (\<lambda>c. c = CHR ''/'') s"

text \<open>The value of a string of decimal digits, most significant digit first.\<close>

definition digits_value :: "string \<Rightarrow> int" where
  "digits_value s = foldl (\<lambda>a c. a * 10 + (ord c - 48)) 0 s"

text \<open>\<^verbatim>\<open>re.fullmatch(r"\d+", s)\<close>: one digit at least and digits only.\<close>

definition fullmatch_digits :: "string \<Rightarrow> bool" where
  "fullmatch_digits s = (s \<noteq> [] \<and> list_all is_digit s)"

text \<open>
  \<^verbatim>\<open>int(text)\<close> on a string: the whitespace \<^verbatim>\<open>int\<close> knows is dropped at both ends,
  one sign is allowed, single underscores may separate digits, and the digits may
  not be more than the interpreter's limit. Anything else raises \<^verbatim>\<open>ValueError\<close>,
  which is \<^const>\<open>None\<close> here.
\<close>

definition is_int_space :: "char \<Rightarrow> bool" where
  "is_int_space c = ((9 \<le> ord c \<and> ord c \<le> 13) \<or> ord c = 32 \<or> ord c = 133 \<or> ord c = 160)"

definition strip_int :: "string \<Rightarrow> string" where
  "strip_int s = rev (dropWhile is_int_space (rev (dropWhile is_int_space s)))"

definition int_max_str_digits :: nat where
  "int_max_str_digits = 4300"

fun digits_underscores :: "string \<Rightarrow> bool" where
  "digits_underscores [] = False"
| "digits_underscores [c] = is_digit c"
| "digits_underscores (c # d # r) =
     (is_digit c \<and> (if d = CHR ''_'' then digits_underscores r else digits_underscores (d # r)))"

definition py_int :: "string \<Rightarrow> int option" where
  "py_int x =
     (let s = strip_int x;
          neg = (s \<noteq> [] \<and> hd s = CHR ''-'');
          body = (if s \<noteq> [] \<and> (hd s = CHR ''-'' \<or> hd s = CHR ''+'') then tl s else s);
          digits = filter (\<lambda>c. c \<noteq> CHR ''_'') body
      in if digits_underscores body \<and> length digits \<le> int_max_str_digits
         then Some ((if neg then - 1 else 1) * digits_value digits)
         else None)"

text \<open>
  \<^verbatim>\<open>str(n)\<close> of an integer: its decimal numeral. The integers the script turns into
  text are counts of headers and numbers that \<^verbatim>\<open>int\<close> has read, which have no more
  digits than the limit.
\<close>

fun str_nat :: "nat \<Rightarrow> string" where
  "str_nat n = (if n < 10 then [char_of (48 + n)] else str_nat (n div 10) @ [char_of (48 + n mod 10)])"

declare str_nat.simps [simp del]

definition str_int :: "int \<Rightarrow> string" where
  "str_int i = (if i < 0 then CHR ''-'' # str_nat (nat (- i)) else str_nat (nat i))"

section \<open>Values and errors\<close>

text \<open>
  A float is represented by the number it denotes, or by one of its three special
  values. \<^verbatim>\<open>v.is_integer()\<close> is false on the special values, and \<^verbatim>\<open>int(v)\<close>
  truncates towards zero.
\<close>

datatype pyfloat = Finite rat | PosInf | NegInf | NaN

fun is_integer :: "pyfloat \<Rightarrow> bool" where
  "is_integer (Finite q) = (of_int \<lfloor>q\<rfloor> = q)"
| "is_integer _ = False"

fun int_of_float :: "pyfloat \<Rightarrow> int" where
  "int_of_float (Finite q) = (if q < 0 then \<lceil>q\<rceil> else \<lfloor>q\<rfloor>)"
| "int_of_float _ = 0"

text \<open>
  The values the script handles: \<^verbatim>\<open>None\<close>, booleans, integers, floats, strings and
  the list of integers stored under \<^verbatim>\<open>"__numbers"\<close>.
\<close>

datatype pyval = VNone | VBool bool | VInt int | VFloat pyfloat | VStr string | VList "int list"

text \<open>
  The exceptions that leave the script's functions. The three \<^verbatim>\<open>RuntimeError\<close>s are
  told apart by the place that raises them:
  \<^item> \<open>EmptyWorkbook\<close> is \<^verbatim>\<open>RuntimeError(f"Sem dados em {xlsx_path.name}")\<close>;
  \<^item> \<open>NoSheetsDeclared\<close> is the \<^verbatim>\<open>RuntimeError\<close> raised when the workbook has no sheet;
  \<^item> \<open>UnresolvedRelationship\<close> is the \<^verbatim>\<open>RuntimeError\<close> raised when the relationship
    of the first sheet has no target;
  \<^item> \<open>KeyError\<close> is raised by \<^verbatim>\<open>zf.read\<close> on a missing part, \<open>ParseError\<close> by
    \<^verbatim>\<open>ET.fromstring\<close>, \<open>ValueError\<close> by \<^verbatim>\<open>int\<close>.
\<close>

datatype error = EmptyWorkbook | NoSheetsDeclared | UnresolvedRelationship
  | KeyError | ParseError | ValueError

section \<open>Utilities\<close>

text \<open>
  \<^verbatim>\<open>to_int\<close> returns an integer or \<^verbatim>\<open>None\<close>; the \<^verbatim>\<open>ValueError\<close> of \<^verbatim>\<open>int(s)\<close> is not
  caught in it.
\<close>

fun to_int :: "pyval \<Rightarrow> error + int option" where
  "to_int VNone = Inr None"
| "to_int (VBool b) = Inr None"
| "to_int (VInt i) = Inr (Some i)"
| "to_int (VFloat f) = (if is_integer f then Inr (Some (int_of_float f)) else Inr None)"
| "to_int (VStr v) =
     (let s = strip v
      in if fullmatch_digits s
         then (case py_int s of None \<Rightarrow> Inl ValueError | Some n \<Rightarrow> Inr (Some n))
         else Inr None)"
| "to_int (VList ns) = Inr None"

text \<open>
  \<^verbatim>\<open>clean_headers\<close>: the dictionary \<^verbatim>\<open>seen\<close> is a map from names to counts, the list
  \<^verbatim>\<open>out\<close> is built in order. \<^verbatim>\<open>str(h)\<close> is the identity on a string.
\<close>

fun clean_headers_loop :: "(string \<rightharpoonup> nat) \<Rightarrow> string option list \<Rightarrow> string option list" where
  "clean_headers_loop seen [] = []"
| "clean_headers_loop seen (None # hs) = None # clean_headers_loop seen hs"
| "clean_headers_loop seen (Some h # hs) =
     (let s = strip h in
      if s = [] then None # clean_headers_loop seen hs
      else (case seen s of
              Some n \<Rightarrow> Some (s @ ''_'' @ str_nat (n + 1)) # clean_headers_loop (seen(s \<mapsto> n + 1)) hs
            | None \<Rightarrow> Some s # clean_headers_loop (seen(s \<mapsto> 1)) hs))"

definition clean_headers :: "string option list \<Rightarrow> string option list" where
  "clean_headers headers = clean_headers_loop Map.empty headers"

text \<open>
  \<^verbatim>\<open>extract_number_columns\<close>. Each family has two patterns, matched without regard to
  case: the name, optional whitespace (\<^verbatim>\<open>\s*\<close>) and one digit at least up to the end
  (\<^verbatim>\<open>^Bola\s*\d+$\<close>), and the same with no whitespace (\<^verbatim>\<open>^Bola\d+$\<close>). The string
  matched is stripped, so \<^verbatim>\<open>$\<close> can only match at its end.
\<close>

definition match_name_ws_digits :: "string \<Rightarrow> string \<Rightarrow> bool" where
  "match_name_ws_digits name hs =
     (ignore_case (take (length name) hs) = ignore_case name
      \<and> fullmatch_digits (dropWhile is_space (drop (length name) hs)))"

definition match_name_digits :: "string \<Rightarrow> string \<Rightarrow> bool" where
  "match_name_digits name hs =
     (ignore_case (take (length name) hs) = ignore_case name
      \<and> fullmatch_digits (drop (length name) hs))"

definition patterns :: "(string \<Rightarrow> bool) list" where
  "patterns =
     [match_name_ws_digits ''Bola'', match_name_digits ''Bola'',
      match_name_ws_digits ''Trevo'', match_name_digits ''Trevo'',
      match_name_ws_digits ''Coluna'', match_name_digits ''Coluna'']"

fun extract_number_columns :: "string option list \<Rightarrow> string list" where
  "extract_number_columns [] = []"
| "extract_number_columns (None # hs) = extract_number_columns hs"
| "extract_number_columns (Some h # hs) =
     (if h = [] then extract_number_columns hs
      else (let hs' = strip h in
            if list_ex (\<lambda>p. p hs') patterns then hs' # extract_number_columns hs
            else extract_number_columns hs))"

section \<open>The spreadsheet reader\<close>

text \<open>
  \<^verbatim>\<open>_col_to_index\<close>: the loop over the characters of the upper-cased label is a left
  fold; \<open>ch\<close> is the code point \<^verbatim>\<open>ord(ch)\<close> of a character of that label. Nothing in
  it can raise.
\<close>

definition col_to_index :: "string \<Rightarrow> int" where
  "col_to_index col_letters =
     foldl (\<lambda>idx ch. idx * 26 + (ch - ord (CHR ''A'') + 1)) 0 (upper col_letters) - 1"

text \<open>
  A parsed XML element as \<^verbatim>\<open>xml.etree.ElementTree\<close> presents it: the tag, the
  attributes, the text before the first child and the children. Every path of the
  script names its tags with the namespace wildcard \<^verbatim>\<open>{*}\<close>, so a tag is kept as its
  local name. Attribute names are kept as ElementTree spells them.
\<close>

datatype xml = Elem (el_tag: string) (el_attrib: "(string \<times> string) list")
  (el_text: "string option") (el_children: "xml list")

text \<open>All the elements below an element, in document order (\<^verbatim>\<open>.//\<close>).\<close>

fun descendants :: "xml \<Rightarrow> xml list" where
  "descendants (Elem t a x cs) = concat (map (\<lambda>c. c # descendants c) cs)"

definition children_named :: "string \<Rightarrow> xml \<Rightarrow> xml list" where
  "children_named name e = filter (\<lambda>c. el_tag c = name) (el_children e)"

definition descendants_named :: "string \<Rightarrow> xml \<Rightarrow> xml list" where
  "descendants_named name e = filter (\<lambda>c. el_tag c = name) (descendants e)"

text \<open>\<^verbatim>\<open>e.find(path)\<close> is the first element of \<^verbatim>\<open>e.findall(path)\<close>, or \<^verbatim>\<open>None\<close>.\<close>

definition first_of :: "'a list \<Rightarrow> 'a option" where
  "first_of xs = (case xs of [] \<Rightarrow> None | x # _ \<Rightarrow> Some x)"

definition attrib_get :: "xml \<Rightarrow> string \<Rightarrow> string option" where
  "attrib_get e k = map_of (el_attrib e) k"

text \<open>
  An opened archive: a part is absent, or its bytes are not well-formed XML, or they
  parse to an element. \<^verbatim>\<open>zf.read\<close> raises \<^verbatim>\<open>KeyError\<close> on an absent part and
  \<^verbatim>\<open>ET.fromstring\<close> raises \<^verbatim>\<open>ParseError\<close> on a malformed one.
\<close>

datatype part = Malformed | Parsed xml

type_synonym archive = "string \<rightharpoonup> part"

definition read_xml :: "archive \<Rightarrow> string \<Rightarrow> error + xml" where
  "read_xml zf name =
     (case zf name of
        None \<Rightarrow> Inl KeyError
      | Some Malformed \<Rightarrow> Inl ParseError
      | Some (Parsed doc) \<Rightarrow> Inr doc)"

text \<open>
  \<^verbatim>\<open>_parse_shared_strings\<close>: only the \<^verbatim>\<open>KeyError\<close> of the read is caught. A text
  node adds its text when the text is not empty.
\<close>

definition si_string :: "xml \<Rightarrow> string" where
  "si_string si =
     concat (map (\<lambda>tnode. case el_text tnode of None \<Rightarrow> [] | Some x \<Rightarrow> x)
                 (descendants_named ''t'' si))"

definition parse_shared_strings :: "archive \<Rightarrow> error + string list" where
  "parse_shared_strings zf =
     (case zf ''xl/sharedStrings.xml'' of
        None \<Rightarrow> Inr []
      | Some Malformed \<Rightarrow> Inl ParseError
      | Some (Parsed doc) \<Rightarrow> Inr (map si_string (descendants_named ''si'' doc)))"

text \<open>
  \<^verbatim>\<open>_first_sheet_path\<close>. The dictionary \<^verbatim>\<open>rid_to_target\<close> is filled in document order,
  so a later relationship with the same id wins; its keys may be \<^verbatim>\<open>None\<close>.
\<close>

definition rid_to_target :: "xml \<Rightarrow> (string option \<times> string) list" where
  "rid_to_target rels =
     map (\<lambda>rel. (attrib_get rel ''Id'',
                 (case attrib_get rel ''Target'' of None \<Rightarrow> [] | Some t \<Rightarrow> t)))
         (descendants_named ''Relationship'' rels)"

definition sheet_rid :: "xml \<Rightarrow> string option" where
  "sheet_rid sheet =
     (case attrib_get sheet ''{http://schemas.openxmlformats.org/officeDocument/2006/relationships}id'' of
        None \<Rightarrow> attrib_get sheet ''r:id''
      | Some r \<Rightarrow> if r \<noteq> [] then Some r else attrib_get sheet ''r:id'')"

definition first_sheet_path :: "archive \<Rightarrow> error + string" where
  "first_sheet_path zf =
     (case read_xml zf ''xl/workbook.xml'' of
        Inl e \<Rightarrow> Inl e
      | Inr wb \<Rightarrow>
     (case read_xml zf ''xl/_rels/workbook.xml.rels'' of
        Inl e \<Rightarrow> Inl e
      | Inr rels \<Rightarrow>
     (case first_of (concat (map (children_named ''sheet'') (descendants_named ''sheets'' wb))) of
        None \<Rightarrow> Inl NoSheetsDeclared
      | Some sheet \<Rightarrow>
          (let target = (case map_of (rev (rid_to_target rels)) (sheet_rid sheet) of
                           None \<Rightarrow> [] | Some t \<Rightarrow> t)
           in if target = [] then Inl UnresolvedRelationship
              else if take 3 target = ''xl/'' then Inr target
              else Inr (''xl/'' @ lstrip_slash target)))))"

text \<open>
  \<^verbatim>\<open>re.match(r"([A-Z]+)(\d+)", ref)\<close>: the match starts at the first character; its
  first group is the longest run of capital letters, and a digit must follow it.
\<close>

definition ref_letters :: "string \<Rightarrow> string option" where
  "ref_letters ref =
     (let letters = takeWhile is_upper_AZ ref; rest = dropWhile is_upper_AZ ref
      in if letters \<noteq> [] \<and> rest \<noteq> [] \<and> is_digit (hd rest) then Some letters else None)"

text \<open>The value of \<^verbatim>\<open>cur_col\<close> once the attribute \<^verbatim>\<open>r\<close> of the cell has been looked at.\<close>

definition cell_column :: "int \<Rightarrow> xml \<Rightarrow> int" where
  "cell_column cur_col c =
     (case attrib_get c ''r'' of
        None \<Rightarrow> cur_col
      | Some ref \<Rightarrow>
          if ref = [] then cur_col
          else (case ref_letters ref of None \<Rightarrow> cur_col | Some letters \<Rightarrow> col_to_index letters))"

text \<open>
  The value of a cell. \<^verbatim>\<open>int(v_el.text)\<close> is not guarded: text that is no integer
  raises \<^verbatim>\<open>ValueError\<close>.
\<close>

definition cell_value :: "string list \<Rightarrow> xml \<Rightarrow> error + string option" where
  "cell_value shared c =
     (let t = attrib_get c ''t''; v_el = first_of (children_named ''v'' c)
      in if t = Some ''s'' then
           (case v_el of
              None \<Rightarrow> Inr None
            | Some v \<Rightarrow>
               (case el_text v of
                  None \<Rightarrow> Inr None
                | Some txt \<Rightarrow>
                   (case py_int txt of
                      None \<Rightarrow> Inl ValueError
                    | Some si \<Rightarrow>
                        Inr (Some (if 0 \<le> si \<and> si < int (length shared)
                                   then shared ! nat si else txt)))))
         else if t = Some ''inlineStr'' then
           Inr (case first_of (descendants_named ''t'' c) of
                  None \<Rightarrow> None | Some t_el \<Rightarrow> el_text t_el)
         else Inr (case v_el of None \<Rightarrow> None | Some v \<Rightarrow> el_text v))"

text \<open>
  The loop over the cells of one row. Its state is the dictionary \<^verbatim>\<open>cells\<close> (an
  association list in insertion order), \<^verbatim>\<open>cur_col\<close> and \<^verbatim>\<open>global_max_col\<close>.
\<close>

type_synonym cells = "(int \<times> string option) list"
type_synonym matrix = "string option list list"

fun row_cells :: "string list \<Rightarrow> xml list \<Rightarrow> cells \<times> int \<times> int \<Rightarrow> error + (cells \<times> int \<times> int)" where
  "row_cells shared [] st = Inr st"
| "row_cells shared (c # cs) (cells, cur_col, global_max_col) =
     (let col_idx = cell_column cur_col c
      in case cell_value shared c of
           Inl e \<Rightarrow> Inl e
         | Inr v \<Rightarrow>
             row_cells shared cs
               (AList.update col_idx v cells, col_idx + 1, max global_max_col col_idx))"

text \<open>
  \<^verbatim>\<open>row = [None] * (global_max_col + 1)\<close> and the assignments \<^verbatim>\<open>row[idx] = val\<close>. The
  indices are between 0 and \<^verbatim>\<open>global_max_col\<close>, so the assignments are in range.
\<close>

definition make_row :: "cells \<Rightarrow> int \<Rightarrow> string option list" where
  "make_row cells global_max_col =
     foldl (\<lambda>row (idx, val). row[nat idx := val])
           (replicate (nat (global_max_col + 1)) None) cells"

text \<open>The loop over the rows; its state is \<^verbatim>\<open>rows\<close> and \<^verbatim>\<open>global_max_col\<close>.\<close>

fun sheet_rows :: "string list \<Rightarrow> xml list \<Rightarrow> matrix \<times> int \<Rightarrow> error + matrix" where
  "sheet_rows shared [] (rows, global_max_col) = Inr rows"
| "sheet_rows shared (row_el # rest) (rows, global_max_col) =
     (case row_cells shared (children_named ''c'' row_el) ([], 0, global_max_col) of
        Inl e \<Rightarrow> Inl e
      | Inr (cells, cur_col, gmax) \<Rightarrow>
          if cells = [] \<and> rows = [] then sheet_rows shared rest (rows, gmax)
          else sheet_rows shared rest (rows @ [make_row cells gmax], gmax))"

text \<open>\<^verbatim>\<open>root.findall(".//{*}sheetData/{*}row")\<close>.\<close>

definition sheet_row_elements :: "xml \<Rightarrow> xml list" where
  "sheet_row_elements doc =
     concat (map (children_named ''row'') (descendants_named ''sheetData'' doc))"

definition read_first_sheet_rows :: "archive \<Rightarrow> error + matrix" where
  "read_first_sheet_rows zf =
     (case parse_shared_strings zf of
        Inl e \<Rightarrow> Inl e
      | Inr shared \<Rightarrow>
     (case first_sheet_path zf of
        Inl e \<Rightarrow> Inl e
      | Inr sheet_path \<Rightarrow>
     (case read_xml zf sheet_path of
        Inl e \<Rightarrow> Inl e
      | Inr doc \<Rightarrow> sheet_rows shared (sheet_row_elements doc) ([], 0))))"

section \<open>Building the dataset\<close>

text \<open>\<^verbatim>\<open>v is None or str(v).strip() == ""\<close>.\<close>

definition blank :: "string option \<Rightarrow> bool" where
  "blank v = (case v of None \<Rightarrow> True | Some s \<Rightarrow> strip s = [])"

text \<open>The index of the last header that is not blank, 0 when there is none.\<close>

definition header_last :: "string option list \<Rightarrow> nat" where
  "header_last header_raw =
     foldl (\<lambda>last_i (i, v). if \<not> blank v then i else last_i) 0 (enumerate 0 header_raw)"

text \<open>
  A record of \<^verbatim>\<open>draws\<close> is a dictionary in insertion order: an assignment to a key
  that is there keeps the key's place.
\<close>

type_synonym rec = "(string \<times> pyval) list"

fun row_fields :: "rec \<Rightarrow> (string option \<times> string option) list \<Rightarrow> rec" where
  "row_fields rec [] = rec"
| "row_fields rec ((None, v) # rest) = row_fields rec rest"
| "row_fields rec ((Some h, None) # rest) = row_fields rec rest"
| "row_fields rec ((Some h, Some v) # rest) =
     (if h = [] then row_fields rec rest
      else (let s = strip v in
            if s = [] then row_fields rec rest
            else row_fields (AList.update h (VStr s) rec) rest))"

definition rec_get :: "rec \<Rightarrow> string \<Rightarrow> pyval" where
  "rec_get rec k = (case map_of rec k of None \<Rightarrow> VNone | Some v \<Rightarrow> v)"

text \<open>The loop over \<^verbatim>\<open>num_cols\<close>; an error of \<^verbatim>\<open>to_int\<close> leaves it at once.\<close>

fun row_numbers :: "rec \<Rightarrow> string list \<Rightarrow> error + int list" where
  "row_numbers rec [] = Inr []"
| "row_numbers rec (col # cols) =
     (case to_int (rec_get rec col) of
        Inl e \<Rightarrow> Inl e
      | Inr None \<Rightarrow> row_numbers rec cols
      | Inr (Some n) \<Rightarrow>
          (case row_numbers rec cols of Inl e \<Rightarrow> Inl e | Inr nums \<Rightarrow> Inr (n # nums)))"

definition build_record ::
    "string option list \<Rightarrow> string list \<Rightarrow> string option list \<Rightarrow> error + rec" where
  "build_record headers num_cols row =
     (let rec = row_fields [] (zip headers row)
      in case row_numbers rec num_cols of
           Inl e \<Rightarrow> Inl e
         | Inr nums \<Rightarrow>
             Inr (if nums \<noteq> [] then AList.update ''__numbers'' (VList nums) rec else rec))"

text \<open>
  The loop over \<^verbatim>\<open>matrix[1:]\<close>, with its two \<^verbatim>\<open>continue\<close>s. The first row whose
  record raises ends the loop with that error.
\<close>

fun build_draws :: "string option list \<Rightarrow> string list \<Rightarrow> matrix \<Rightarrow> error + rec list" where
  "build_draws headers num_cols [] = Inr []"
| "build_draws headers num_cols (r # rest) =
     (let row = take (length headers) r
      in if row = [] \<or> list_all blank row then build_draws headers num_cols rest
         else if blank (hd row) then build_draws headers num_cols rest
         else (case build_record headers num_cols row of
                 Inl e \<Rightarrow> Inl e
               | Inr rec \<Rightarrow>
                   (case build_draws headers num_cols rest of
                      Inl e \<Rightarrow> Inl e
                    | Inr draws \<Rightarrow> Inr (rec # draws))))"

text \<open>
  The keys counted for one record: \<^verbatim>\<open>str(n)\<close> for each \<^verbatim>\<open>n\<close> of
  \<^verbatim>\<open>d.get("__numbers", [])\<close>. When a header is itself named \<^verbatim>\<open>__numbers\<close> and the
  record has no number, the value found is the text of that column and the loop runs
  over its characters. A record holds no other kind of value.
\<close>

definition draw_numbers :: "rec \<Rightarrow> string list" where
  "draw_numbers d =
     (case map_of d ''__numbers'' of
        Some (VList ns) \<Rightarrow> map str_int ns
      | Some (VStr s) \<Rightarrow> map (\<lambda>c. [c]) s
      | _ \<Rightarrow> [])"

definition count_numbers :: "rec list \<Rightarrow> (string \<times> int) list \<times> int" where
  "count_numbers draws =
     foldl (\<lambda>(counts, total_nums) k.
              (AList.update k ((case map_of counts k of None \<Rightarrow> 0 | Some n \<Rightarrow> n) + 1) counts,
               total_nums + 1))
           ([], 0) (concat (map draw_numbers draws))"

text \<open>Truth of a value, and \<^verbatim>\<open>a or b\<close>.\<close>

fun truthy :: "pyval \<Rightarrow> bool" where
  "truthy VNone = False"
| "truthy (VBool b) = b"
| "truthy (VInt i) = (i \<noteq> 0)"
| "truthy (VFloat f) = (f \<noteq> Finite 0)"
| "truthy (VStr s) = (s \<noteq> [])"
| "truthy (VList ns) = (ns \<noteq> [])"

definition py_or :: "pyval \<Rightarrow> pyval \<Rightarrow> pyval" where
  "py_or a b = (if truthy a then a else b)"

record meta =
  game_name :: string
  source_file :: string
  generated_at_utc :: string
  m_rows :: nat
  number_columns :: "string list"

record stats =
  total_numbers :: int
  number_counts :: "(string \<times> int) list"

record last_block =
  Concurso :: pyval
  Data_do_Sorteio :: pyval

record dataset =
  ds_meta :: meta
  ds_stats :: stats
  ds_last :: last_block
  ds_draws :: "rec list"

text \<open>
  The body of \<^verbatim>\<open>parse_xlsx_dataset\<close> from the matrix on. The stem and the name of the
  path and the time of the clock are parameters. The last of the three date keys
  is \<^verbatim>\<open>"Data de apura"\<close> followed by c with a cedilla (code point 231), a with a tilde
  (code point 227) and \<^verbatim>\<open>"o"\<close>.
\<close>

definition dataset_of_matrix :: "string \<Rightarrow> string \<Rightarrow> string \<Rightarrow> matrix \<Rightarrow> error + dataset" where
  "dataset_of_matrix stem name now matrix =
     (if matrix = [] then Inl EmptyWorkbook
      else
        (let header_raw = take (header_last (hd matrix) + 1) (hd matrix);
             headers = clean_headers header_raw;
             num_cols = extract_number_columns headers
         in case build_draws headers num_cols (tl matrix) of
              Inl e \<Rightarrow> Inl e
            | Inr draws \<Rightarrow>
        (let (counts, total_nums) = count_numbers draws;
             last_draw = (if draws \<noteq> [] then last draws else [])
         in Inr \<lparr>ds_meta = \<lparr>game_name = stem, source_file = name, generated_at_utc = now,
                             m_rows = length draws, number_columns = num_cols\<rparr>,
                  ds_stats = \<lparr>total_numbers = total_nums, number_counts = counts\<rparr>,
                  ds_last = \<lparr>Concurso = rec_get last_draw ''Concurso'',
                             Data_do_Sorteio =
                               py_or (py_or (rec_get last_draw ''Data do Sorteio'')
                                            (rec_get last_draw ''Data de Sorteio''))
                                     (rec_get last_draw (''Data de apura'' @ [CHR 0xE7, CHR 0xE3] @ ''o''))\<rparr>,
                  ds_draws = draws\<rparr>)))"

definition parse_xlsx_dataset :: "string \<Rightarrow> string \<Rightarrow> string \<Rightarrow> archive \<Rightarrow> error + dataset" where
  "parse_xlsx_dataset stem name now zf =
     (case read_first_sheet_rows zf of
        Inl e \<Rightarrow> Inl e
      | Inr matrix \<Rightarrow> dataset_of_matrix stem name now matrix)"

section \<open>Notions used to state the properties\<close>

text \<open>The loop of \<^verbatim>\<open>_col_to_index\<close> started from any value of \<^verbatim>\<open>idx\<close>.\<close>

definition col_acc :: "int \<Rightarrow> int list \<Rightarrow> int" where
  "col_acc a us = foldl (\<lambda>idx ch. idx * 26 + (ch - ord (CHR ''A'') + 1)) a us"

text \<open>A valid column label: one capital letter or more, and nothing else.\<close>

definition valid_label :: "string \<Rightarrow> bool" where
  "valid_label s = (s \<noteq> [] \<and> list_all is_upper_AZ s)"

text \<open>
  The order of the labels in a spreadsheet: a shorter label comes before a longer
  one, and two labels of one length are compared letter by letter from the left.
\<close>

fun lex_less :: "string \<Rightarrow> string \<Rightarrow> bool" where
  "lex_less (a # s) (b # t) = (ord a < ord b \<or> (a = b \<and> lex_less s t))"
| "lex_less _ _ = False"

definition label_less :: "string \<Rightarrow> string \<Rightarrow> bool" where
  "label_less s t = (length s < length t \<or> (length s = length t \<and> lex_less s t))"

text \<open>
  The name a header entry stands for: its text without the surrounding whitespace,
  and none when the entry is absent or blank.
\<close>

definition header_name :: "string option \<Rightarrow> string option" where
  "header_name h = (case h of None \<Rightarrow> None | Some x \<Rightarrow> if strip x = [] then None else Some (strip x))"

text \<open>
  Which occurrence of its name the entry \<open>i\<close> is: the number of entries up to and
  including \<open>i\<close> that stand for the same name.
\<close>

definition occurrence :: "string option list \<Rightarrow> nat \<Rightarrow> nat" where
  "occurrence hs i = length (filter (\<lambda>h. header_name h = header_name (hs ! i)) (take (Suc i) hs))"

text \<open>
  The cleaned header as the specification words it: a first occurrence keeps the
  name, the \<open>n\<close>-th occurrence gets the suffix \<open>_n\<close>.
\<close>

definition clean_header_spec :: "string option list \<Rightarrow> nat \<Rightarrow> string option" where
  "clean_header_spec hs i =
     (case header_name (hs ! i) of
        None \<Rightarrow> None
      | Some s \<Rightarrow> if occurrence hs i = 1 then Some s
                  else Some (s @ ''_'' @ str_nat (occurrence hs i)))"

text \<open>The invariant of the loop: \<^verbatim>\<open>seen\<close> counts the names of the entries read so far.\<close>

definition seen_counts :: "(string \<rightharpoonup> nat) \<Rightarrow> string option list \<Rightarrow> bool" where
  "seen_counts seen pre =
     (\<forall>s. seen s = (let n = length (filter (\<lambda>h. header_name h = Some s) pre)
                     in if n = 0 then None else Some n))"

text \<open>
  A row whose first column is blank or absent, and a row that is filtered out: all
  its cells are blank or absent, or its first column is.
\<close>

definition first_blank :: "string option list \<Rightarrow> bool" where
  "first_blank r = (case r of [] \<Rightarrow> True | v # _ \<Rightarrow> blank v)"

definition filtered_row :: "string option list \<Rightarrow> bool" where
  "filtered_row r = (list_all blank r \<or> first_blank r)"

text \<open>
  A small archive to evaluate the reader on: a workbook with one sheet, the
  relationship that leads to it, a worksheet made of the given rows, and no
  shared-string part.
\<close>

definition workbook_doc :: xml where
  "workbook_doc =
     Elem ''workbook'' [] None
       [Elem ''sheets'' [] None
          [Elem ''sheet''
             [(''name'', ''Plan1''),
              (''{http://schemas.openxmlformats.org/officeDocument/2006/relationships}id'', ''rId1'')]
             None []]]"

definition rels_doc :: xml where
  "rels_doc =
     Elem ''Relationships'' [] None
       [Elem ''Relationship'' [(''Id'', ''rId1''), (''Target'', ''worksheets/sheet1.xml'')] None []]"

definition sheet_doc :: "xml list \<Rightarrow> xml" where
  "sheet_doc row_els = Elem ''worksheet'' [] None [Elem ''sheetData'' [] None row_els]"

definition archive_of :: "xml list \<Rightarrow> archive" where
  "archive_of row_els =
     [''xl/workbook.xml'' \<mapsto> Parsed workbook_doc,
      ''xl/_rels/workbook.xml.rels'' \<mapsto> Parsed rels_doc,
      ''xl/worksheets/sheet1.xml'' \<mapsto> Parsed (sheet_doc row_els)]"

text \<open>A cell with the given attributes and the given text in its value node, and a row.\<close>

definition cell_el :: "(string \<times> string) list \<Rightarrow> string \<Rightarrow> xml" where
  "cell_el attrs v = Elem ''c'' attrs None [Elem ''v'' [] (Some v) []]"

definition row_el_of :: "xml list \<Rightarrow> xml" where
  "row_el_of cs = Elem ''row'' [] None cs"

text \<open>
  The columns the cells of a row are placed at when the cursor starts at \<open>cur\<close>: each
  cell takes the column \<^const>\<open>cell_column\<close> gives it, and the cursor goes on from the
  column after it.
\<close>

fun cursor_columns :: "int \<Rightarrow> xml list \<Rightarrow> int list" where
  "cursor_columns cur [] = []"
| "cursor_columns cur (c # cs) = cell_column cur c # cursor_columns (cell_column cur c + 1) cs"

text \<open>The column indices observed in a row element, and a row element with no cell.\<close>

definition row_columns :: "xml \<Rightarrow> int list" where
  "row_columns row_el = cursor_columns 0 (children_named ''c'' row_el)"

definition no_cells :: "xml \<Rightarrow> bool" where
  "no_cells row_el = (children_named ''c'' row_el = [])"

text \<open>
  One plus the running maximum of the column indices: the maximum starts at \<open>g\<close> and
  takes in the columns of each row in turn.
\<close>

fun running_widths :: "int \<Rightarrow> xml list \<Rightarrow> nat list" where
  "running_widths g [] = []"
| "running_widths g (r # rs) =
     nat (foldl max g (row_columns r) + 1) # running_widths (foldl max g (row_columns r)) rs"

text \<open>Assignments \<^verbatim>\<open>cells[k] = v\<close> made in order.\<close>

definition store_all :: "cells \<Rightarrow> (int \<times> string option) list \<Rightarrow> cells" where
  "store_all cells kvs = foldl (\<lambda>d (k, v). AList.update k v d) cells kvs"




section \<open>Numeric coercion\<close>
















section \<open>The column decoder\<close>

lemma ord_A: "ord (CHR ''A'') = 65"
  by (simp add: ord_def)

lemma col_acc_Nil: "col_acc a [] = a"
  by (simp add: col_acc_def)

lemma col_acc_Cons: "col_acc a (u # us) = col_acc (a * 26 + (u - 64)) us"
  by (simp add: col_acc_def ord_A)

lemma col_acc_snoc: "col_acc a (us @ [u]) = col_acc a us * 26 + (u - 64)"
  by (simp add: col_acc_def ord_A)

lemma col_acc_append: "col_acc a (us @ vs) = col_acc (col_acc a us) vs"
  by (simp add: col_acc_def)

lemma upper_codes_letter: "is_upper_AZ c \<Longrightarrow> upper_codes c = [ord c]"
  by (simp add: upper_codes_def is_upper_AZ_def Let_def)

lemma upper_letters: "list_all is_upper_AZ s \<Longrightarrow> upper s = map ord s"
  by (induction s) (simp_all add: upper_def upper_codes_letter)

lemma col_to_index_acc: "col_to_index s = col_acc 0 (upper s) - 1"
  by (simp add: col_to_index_def col_acc_def)

lemma col_acc_shift: "col_acc a us = a * 26 ^ length us + col_acc 0 us"
proof (induction us arbitrary: a)
  case Nil
  show ?case by (simp add: col_acc_Nil)
next
  case (Cons u us)
  have "col_acc a (u # us) = (a * 26 + (u - 64)) * 26 ^ length us + col_acc 0 us"
    by (simp add: col_acc_Cons Cons.IH [of "a * 26 + (u - 64)"])
  moreover have "col_acc 0 (u # us) = (u - 64) * 26 ^ length us + col_acc 0 us"
    by (simp add: col_acc_Cons Cons.IH [of "u - 64"])
  ultimately show ?case by (simp add: algebra_simps)
qed

text \<open>
  A label of \<open>n\<close> letters decodes to a value between \<open>1 + 26 + \<dots> + 26\<^sup>n\<^sup>-\<^sup>1\<close> and 26
  times that; both bounds are stated multiplied by 25.
\<close>

lemma col_acc_bounds:
  "list_all is_upper_AZ s \<Longrightarrow>
     26 ^ length s - 1 \<le> 25 * col_acc 0 (map ord s)
     \<and> 25 * col_acc 0 (map ord s) \<le> 26 * 26 ^ length s - 26"
proof (induction s rule: rev_induct)
  case Nil
  show ?case by (simp add: col_acc_Nil)
next
  case (snoc c s)
  then have c: "65 \<le> ord c" "ord c \<le> 90"
    by (simp_all add: is_upper_AZ_def)
  from snoc have IH: "26 ^ length s - 1 \<le> 25 * col_acc 0 (map ord s)"
      "25 * col_acc 0 (map ord s) \<le> 26 * 26 ^ length s - 26"
    by simp_all
  show ?case using c IH by (simp add: col_acc_snoc)
qed

lemma lex_less_acc:
  "length s = length t \<Longrightarrow> list_all is_upper_AZ s \<Longrightarrow> list_all is_upper_AZ t \<Longrightarrow>
   lex_less s t \<Longrightarrow> col_acc 0 (map ord s) < col_acc 0 (map ord t)"
proof (induction s t rule: list_induct2)
  case Nil
  then show ?case by simp
next
  case (Cons a s b t)
  define Y :: int where "Y = 26 ^ length s"
  have Y: "Y = 26 ^ length t" using Cons.hyps by (simp add: Y_def)
  define P where "P = (ord a - 64) * Y"
  define Q where "Q = (ord b - 64) * Y"
  have s: "col_acc 0 (map ord (a # s)) = P + col_acc 0 (map ord s)"
    using col_acc_shift [of "ord a - 64" "map ord s"] by (simp add: col_acc_Cons P_def Y_def)
  have t: "col_acc 0 (map ord (b # t)) = Q + col_acc 0 (map ord t)"
    using col_acc_shift [of "ord b - 64" "map ord t"] Y by (simp add: col_acc_Cons Q_def Y_def)
  from Cons.prems have vs: "list_all is_upper_AZ s" and vt: "list_all is_upper_AZ t"
    by simp_all
  show ?case
  proof (cases "ord a < ord b")
    case True
    have "0 \<le> Y" by (simp add: Y_def)
    with True have "(ord a - 64 + 1) * Y \<le> (ord b - 64) * Y"
      by (intro mult_right_mono) simp_all
    then have 1: "P + Y \<le> Q" by (simp add: algebra_simps P_def Q_def)
    from col_acc_bounds [OF vs] have 2: "25 * col_acc 0 (map ord s) \<le> 26 * Y - 26"
      by (simp add: Y_def)
    from col_acc_bounds [OF vt] have 3: "Y - 1 \<le> 25 * col_acc 0 (map ord t)"
      by (simp add: Y)
    from 2 3 have "col_acc 0 (map ord s) - col_acc 0 (map ord t) < Y" by linarith
    with 1 show ?thesis unfolding s t by linarith
  next
    case False
    with Cons.prems have "a = b" "lex_less s t" by auto
    with Cons.IH vs vt show ?thesis unfolding s t by (simp add: P_def Q_def)
  qed
qed

lemma shorter_acc:
  assumes "length s < length t" and "list_all is_upper_AZ s" and "list_all is_upper_AZ t"
  shows "col_acc 0 (map ord s) < col_acc 0 (map ord t)"
proof -
  have "(26::int) ^ Suc (length s) \<le> 26 ^ length t"
    using assms(1) by (intro power_increasing) simp_all
  moreover from col_acc_bounds [OF assms(2)]
  have "25 * col_acc 0 (map ord s) \<le> 26 * 26 ^ length s - 26" by simp
  moreover from col_acc_bounds [OF assms(3)]
  have "26 ^ length t - 1 \<le> 25 * col_acc 0 (map ord t)" by simp
  ultimately show ?thesis by simp
qed


text \<open>
  Claim C7. The decoder is positional in base 26 with the digits 1 to 26 (\<open>A\<close> is 1,
  \<open>Z\<close> is 26) and a result that starts at 0: \<open>A\<close> decodes to 0, \<open>Z\<close> to 25 and \<open>AA\<close>
  to 26. On valid labels it is strictly increasing in the order of the spreadsheet,
  where a shorter label comes first and labels of one length are compared letter by
  letter.
\<close>

theorem col_to_index_increasing:
  assumes "valid_label s" and "valid_label t" and "label_less s t" and "is_upper_AZ c"
  shows "col_to_index s < col_to_index t
     \<and> 1 \<le> ord c - 64 \<and> ord c - 64 \<le> 26
     \<and> col_to_index [c] = ord c - 64 - 1
     \<and> col_to_index (s @ [c]) + 1 = 26 * (col_to_index s + 1) + (ord c - 64)
     \<and> col_to_index ''A'' = 0 \<and> col_to_index ''Z'' = 25 \<and> col_to_index ''AA'' = 26"
proof -
  from assms have vs: "list_all is_upper_AZ s" and vt: "list_all is_upper_AZ t"
    by (simp_all add: valid_label_def)
  have "col_acc 0 (map ord s) < col_acc 0 (map ord t)"
    using assms(3) vs vt lex_less_acc shorter_acc unfolding label_less_def by blast
  then have order: "col_to_index s < col_to_index t"
    by (simp add: col_to_index_acc upper_letters vs vt)
  have digit: "1 \<le> ord c - 64 \<and> ord c - 64 \<le> 26"
    using assms(4) by (simp add: is_upper_AZ_def)
  have one: "col_to_index [c] = ord c - 64 - 1"
    using assms(4) upper_letters [of "[c]"]
    by (simp add: col_to_index_acc col_acc_Cons col_acc_Nil)
  have "list_all is_upper_AZ (s @ [c])" using vs assms(4) by simp
  then have pos: "col_to_index (s @ [c]) + 1 = 26 * (col_to_index s + 1) + (ord c - 64)"
    using upper_letters [of "s @ [c]"] upper_letters [OF vs]
    by (simp add: col_to_index_acc col_acc_snoc)
  have ex: "col_to_index ''A'' = 0 \<and> col_to_index ''Z'' = 25 \<and> col_to_index ''AA'' = 26"
    by code_simp
  from order digit one pos ex show ?thesis by blast
qed

theorem col_to_index_increasing_witness:
  "valid_label ''Z'' \<and> valid_label ''AA'' \<and> label_less ''Z'' ''AA''
   \<and> is_upper_AZ (CHR ''B'') \<and> col_to_index ''Z'' < col_to_index ''AA''"
proof -
  have h: "valid_label ''Z''" "valid_label ''AA''" "label_less ''Z'' ''AA''"
      "is_upper_AZ (CHR ''B'')"
    by code_simp+
  from col_to_index_increasing [OF h]
  have "col_to_index ''Z'' < col_to_index ''AA''" by blast
  with h show ?thesis by blast
qed

lemma upper_snoc: "upper (s @ [c]) = upper s @ upper_codes c"
  by (simp add: upper_def)

lemma ref_letters_iff:
  "(ref_letters ref = Some l)
     = (\<exists>rest. ref = l @ rest \<and> valid_label l \<and> rest \<noteq> [] \<and> is_digit (hd rest))"
proof
  assume "ref_letters ref = Some l"
  then have l: "l = takeWhile is_upper_AZ ref" "l \<noteq> []"
    and rest: "dropWhile is_upper_AZ ref \<noteq> []" "is_digit (hd (dropWhile is_upper_AZ ref))"
    by (auto simp: ref_letters_def Let_def split: if_splits)
  have "list_all is_upper_AZ (takeWhile is_upper_AZ ref)"
    by (induction ref) simp_all
  with l have "valid_label l" by (simp add: valid_label_def)
  moreover have "ref = l @ dropWhile is_upper_AZ ref" using l(1) by simp
  ultimately show "\<exists>rest. ref = l @ rest \<and> valid_label l \<and> rest \<noteq> [] \<and> is_digit (hd rest)"
    using rest by blast
next
  assume "\<exists>rest. ref = l @ rest \<and> valid_label l \<and> rest \<noteq> [] \<and> is_digit (hd rest)"
  then obtain rest where ref: "ref = l @ rest" and l: "valid_label l"
    and rest: "rest \<noteq> []" "is_digit (hd rest)" by blast
  from rest obtain x r where r: "rest = x # r" by (cases rest) auto
  with rest have x: "\<not> is_upper_AZ x" by (auto simp: is_digit_def is_upper_AZ_def)
  from l have ls: "l \<noteq> []" "\<forall>c\<in>set l. is_upper_AZ c"
    by (simp_all add: valid_label_def list_all_iff)
  have "takeWhile is_upper_AZ (l @ x # r) = l"
    using ls(2) x by (simp add: takeWhile_append2)
  moreover have "dropWhile is_upper_AZ (l @ x # r) = x # r"
    using ls(2) x by (simp add: dropWhile_append2)
  ultimately show "ref_letters ref = Some l"
    using ls(1) rest r ref by (simp add: ref_letters_def)
qed

text \<open>
  Claim C3, as the code has it. \<^verbatim>\<open>_col_to_index\<close> has no failure: it returns an
  integer for every string. Each character of the upper-cased label, a letter or
  not, counts as the digit \<^verbatim>\<open>ord(ch) - 64\<close>, and the empty string decodes to \<open>-1\<close>.
  What keeps other characters away from the decoder is its only caller, which passes
  the capital letters its pattern \<^verbatim>\<open>[A-Z]+\<close> has matched.
\<close>

theorem col_to_index_total:
  assumes "ref_letters ref = Some l"
  shows "col_to_index (s @ [c]) + 1
           = foldl (\<lambda>idx u. idx * 26 + (u - 64)) (col_to_index s + 1) (upper_codes c)
     \<and> col_to_index [] = - 1
     \<and> valid_label l"
proof -
  have "col_to_index (s @ [c]) + 1 = col_acc (col_to_index s + 1) (upper_codes c)"
    by (simp add: col_to_index_acc upper_snoc col_acc_append)
  then have "col_to_index (s @ [c]) + 1
           = foldl (\<lambda>idx u. idx * 26 + (u - 64)) (col_to_index s + 1) (upper_codes c)"
    by (simp add: col_acc_def ord_A)
  moreover have "col_to_index [] = - 1"
    by (simp add: col_to_index_def upper_def)
  moreover have "valid_label l"
    using assms ref_letters_iff [of ref l] by blast
  ultimately show ?thesis by blast
qed

theorem col_to_index_total_witness:
  "ref_letters ''B7'' = Some ''B''
   \<and> col_to_index (''A'' @ [CHR ''1'']) + 1
       = foldl (\<lambda>idx u. idx * 26 + (u - 64)) (col_to_index ''A'' + 1) (upper_codes (CHR ''1''))
   \<and> valid_label ''B''"
proof -
  have h: "ref_letters ''B7'' = Some ''B''"
    by code_simp
  from col_to_index_total [OF h] h show ?thesis by blast
qed

theorem col_to_index_non_alpha_counterexample:
  "\<not> is_alpha (CHR ''1'') \<and> col_to_index ''A1'' = 10"
  by code_simp

section \<open>Header cleaning\<close>

lemma occurrence_at_end:
  "occurrence (pre @ h # hs) (length pre) =
     Suc (length (filter (\<lambda>x. header_name x = header_name h) pre))"
  by (simp add: occurrence_def)

lemma clean_headers_loop_spec:
  "seen_counts seen pre \<Longrightarrow>
   clean_headers_loop seen hs =
     map (\<lambda>i. clean_header_spec (pre @ hs) (length pre + i)) [0..<length hs]"
proof (induction hs arbitrary: seen pre)
  case Nil
  show ?case by simp
next
  case (Cons h hs)
  let ?f = "\<lambda>i. clean_header_spec (pre @ h # hs) (length pre + i)"
  have split: "map ?f [0..<length (h # hs)] = ?f 0 # map (\<lambda>i. ?f (Suc i)) [0..<length hs]"
    by (simp add: upt_rec [of 0] map_Suc_upt [symmetric] del: upt_Suc)
  have tail: "\<And>seen'. seen_counts seen' (pre @ [h]) \<Longrightarrow>
      clean_headers_loop seen' hs = map (\<lambda>i. ?f (Suc i)) [0..<length hs]"
    using Cons.IH [of _ "pre @ [h]"] by simp
  show ?case
  proof (cases "header_name h")
    case None
    then have keep: "seen_counts seen (pre @ [h])"
      using Cons.prems by (simp add: seen_counts_def)
    have head: "?f 0 = None" using None by (simp add: clean_header_spec_def)
    from None have "clean_headers_loop seen (h # hs) = None # clean_headers_loop seen hs"
      by (cases h) (auto simp: header_name_def Let_def split: if_splits)
    then show ?thesis using tail [OF keep] head split by simp
  next
    case (Some s)
    then obtain x where h: "h = Some x" and s: "s = strip x" "strip x \<noteq> []"
      by (cases h) (auto simp: header_name_def split: if_splits)
    let ?n = "length (filter (\<lambda>y. header_name y = Some s) pre)"
    have occ: "occurrence (pre @ h # hs) (length pre) = Suc ?n"
      using occurrence_at_end [of pre h hs] Some by simp
    have seen_s: "seen s = (if ?n = 0 then None else Some ?n)"
      using Cons.prems by (simp add: seen_counts_def Let_def)
    have upd: "seen_counts (seen(s \<mapsto> Suc ?n)) (pre @ [h])"
      using Cons.prems Some by (auto simp: seen_counts_def Let_def)
    have head: "?f 0 = (if ?n = 0 then Some s else Some (s @ ''_'' @ str_nat (Suc ?n)))"
      using Some occ by (simp add: clean_header_spec_def)
    show ?thesis
    proof (cases "?n = 0")
      case True
      with seen_s have "seen s = None" by simp
      then have "clean_headers_loop seen (h # hs) = Some s # clean_headers_loop (seen(s \<mapsto> 1)) hs"
        using h s by (simp add: Let_def)
      moreover have "seen_counts (seen(s \<mapsto> 1)) (pre @ [h])" using upd True by simp
      ultimately show ?thesis using tail head split True by simp
    next
      case False
      with seen_s have "seen s = Some ?n" by simp
      then have "clean_headers_loop seen (h # hs) =
          Some (s @ ''_'' @ str_nat (Suc ?n)) # clean_headers_loop (seen(s \<mapsto> Suc ?n)) hs"
        using h s by (simp add: Let_def)
      then show ?thesis using tail [OF upd] head split False by simp
    qed
  qed
qed

text \<open>
  Claim C6. \<^verbatim>\<open>clean_headers\<close> maps an absent or blank entry to \<^verbatim>\<open>None\<close>, keeps the
  first occurrence of a name as the stripped name, and gives the \<open>n\<close>-th occurrence
  (\<open>n \<ge> 2\<close>) the stripped name followed by \<open>_n\<close>. Three times \<^verbatim>\<open>"Bola 1"\<close> becomes
  \<^verbatim>\<open>"Bola 1"\<close>, \<^verbatim>\<open>"Bola 1_2"\<close>, \<^verbatim>\<open>"Bola 1_3"\<close>.
\<close>

theorem clean_headers_spec:
  "clean_headers hs = map (clean_header_spec hs) [0..<length hs]
   \<and> clean_headers [Some ''Bola 1'', Some ''Bola 1'', Some ''Bola 1'']
       = [Some ''Bola 1'', Some ''Bola 1_2'', Some ''Bola 1_3'']"
proof -
  have "seen_counts Map.empty []" by (simp add: seen_counts_def)
  from clean_headers_loop_spec [OF this, of hs]
  have "clean_headers hs = map (clean_header_spec hs) [0..<length hs]"
    by (simp add: clean_headers_def)
  moreover have "clean_headers [Some ''Bola 1'', Some ''Bola 1'', Some ''Bola 1'']
       = [Some ''Bola 1'', Some ''Bola 1_2'', Some ''Bola 1_3'']"
    by code_simp
  ultimately show ?thesis by blast
qed

section \<open>The shared strings\<close>

text \<open>
  Claim C10. When the archive has no part \<^verbatim>\<open>xl/sharedStrings.xml\<close>,
  \<^verbatim>\<open>_parse_shared_strings\<close> returns the empty list and does not fail.
\<close>

theorem parse_shared_strings_absent:
  "zf ''xl/sharedStrings.xml'' = None \<Longrightarrow> parse_shared_strings zf = Inr []"
  by (simp add: parse_shared_strings_def)

theorem parse_shared_strings_absent_witness:
  "archive_of [] ''xl/sharedStrings.xml'' = None \<and> parse_shared_strings (archive_of []) = Inr []"
proof -
  have h: "archive_of [] ''xl/sharedStrings.xml'' = None"
    by (simp add: archive_of_def)
  from parse_shared_strings_absent [of "archive_of []", OF h] h show ?thesis by blast
qed

section \<open>Row filtering and the empty workbook\<close>

lemma list_all_take: "list_all P xs \<Longrightarrow> list_all P (take n xs)"
  by (auto simp: list_all_iff dest: in_set_takeD)

lemma build_draws_filtered_row:
  assumes "filtered_row r"
  shows "build_draws hs nc (r # rest) = build_draws hs nc rest"
proof (cases "list_all blank r")
  case True
  then show ?thesis by (simp add: Let_def list_all_take)
next
  case False
  with assms obtain v r' where r: "r = v # r'" and v: "blank v"
    by (cases r) (auto simp: filtered_row_def first_blank_def)
  show ?thesis
  proof (cases "length hs")
    case 0
    then show ?thesis by simp
  next
    case (Suc n)
    then show ?thesis using r v by (simp add: Let_def)
  qed
qed

lemma build_draws_all_filtered:
  "list_all filtered_row rows \<Longrightarrow> build_draws hs nc rows = Inr []"
  by (induction rows) (simp_all add: build_draws_filtered_row del: build_draws.simps(2))

lemma build_draws_without_row:
  assumes "filtered_row r"
  shows "build_draws hs nc (before @ r # after) = build_draws hs nc (before @ after)"
proof (induction before)
  case Nil
  show ?case using build_draws_filtered_row [OF assms] by simp
next
  case (Cons x before)
  have "build_draws hs nc (x # before @ r # after)
      = (let row = take (length hs) x
         in if row = [] \<or> list_all blank row then build_draws hs nc (before @ r # after)
            else if blank (hd row) then build_draws hs nc (before @ r # after)
            else (case build_record hs nc row of
                    Inl e \<Rightarrow> Inl e
                  | Inr rec \<Rightarrow>
                      (case build_draws hs nc (before @ r # after) of
                         Inl e \<Rightarrow> Inl e
                       | Inr draws \<Rightarrow> Inr (rec # draws))))"
    by simp
  also have "\<dots> = build_draws hs nc (x # before @ after)"
    by (simp only: Cons.IH build_draws.simps(2))
  finally show ?case by simp
qed

text \<open>
  Claim C5. A data row whose cells are all blank or absent, or whose first column is
  blank or absent, adds no record to \<^verbatim>\<open>draws\<close>, whatever its other columns hold:
  with the row or without it the records are the same, and so is the dataset.
\<close>

theorem filtered_row_no_record:
  assumes "filtered_row r"
  shows "build_draws headers num_cols (before @ r # after)
           = build_draws headers num_cols (before @ after)
     \<and> dataset_of_matrix stem name now (h # before @ r # after)
           = dataset_of_matrix stem name now (h # before @ after)"
proof -
  have "build_draws hs nc (before @ r # after) = build_draws hs nc (before @ after)" for hs nc
    by (rule build_draws_without_row [OF assms])
  then show ?thesis by (simp add: dataset_of_matrix_def del: build_draws.simps)
qed

theorem filtered_row_no_record_witness:
  "filtered_row [None, Some ''5'']
   \<and> build_draws [Some ''Concurso'', Some ''Bola1''] [''Bola1'']
        ([[Some ''1'', Some ''5'']] @ [None, Some ''5''] # [[Some ''2'', Some ''7'']])
      = build_draws [Some ''Concurso'', Some ''Bola1''] [''Bola1'']
        ([[Some ''1'', Some ''5'']] @ [[Some ''2'', Some ''7'']])"
proof -
  have h: "filtered_row [None, Some ''5'']"
    by (simp add: filtered_row_def first_blank_def blank_def)
  from filtered_row_no_record [OF h] h show ?thesis by blast
qed

lemma row_cells_error: "row_cells sh cs st = Inl e \<Longrightarrow> e = ValueError"
proof (induction cs arbitrary: st)
  case Nil then show ?case by simp
next
  case (Cons c cs)
  obtain cells cur g where st: "st = (cells, cur, g)" by (cases st)
  show ?case
  proof (cases "cell_value sh c")
    case (Inl e')
    then have "e' = ValueError"
      by (auto simp: cell_value_def Let_def split: if_splits option.splits)
    with Inl Cons.prems st show ?thesis by simp
  next
    case (Inr v)
    with Cons.prems st Cons.IH show ?thesis by (simp add: Let_def)
  qed
qed

lemma sheet_rows_error: "sheet_rows sh rs st = Inl e \<Longrightarrow> e = ValueError"
proof (induction rs arbitrary: st)
  case Nil then show ?case by (cases st) simp
next
  case (Cons r rs)
  obtain rows g where st: "st = (rows, g)" by (cases st)
  show ?case
  proof (cases "row_cells sh (children_named ''c'' r) ([], 0, g)")
    case (Inl e')
    with row_cells_error [OF Inl] Cons.prems st show ?thesis by simp
  next
    case (Inr x)
    obtain cells cur g' where x: "x = (cells, cur, g')" by (cases x)
    from Cons.prems st Inr x Cons.IH show ?thesis by (simp split: if_splits)
  qed
qed

lemma read_first_sheet_rows_error:
  "read_first_sheet_rows zf \<noteq> Inl EmptyWorkbook"
proof
  assume a: "read_first_sheet_rows zf = Inl EmptyWorkbook"
  then show False
    by (auto simp: read_first_sheet_rows_def parse_shared_strings_def first_sheet_path_def
        read_xml_def Let_def
        split: sum.splits option.splits part.splits if_splits dest: sheet_rows_error)
qed

lemma to_int_error: "to_int v = Inl e \<Longrightarrow> e = ValueError"
  by (cases v) (auto simp: Let_def split: if_splits option.splits)

lemma row_numbers_error: "row_numbers rec cols = Inl e \<Longrightarrow> e = ValueError"
  by (induction cols) (auto split: sum.splits option.splits dest: to_int_error)

lemma build_record_error: "build_record hs nc row = Inl e \<Longrightarrow> e = ValueError"
  by (auto simp: build_record_def Let_def split: sum.splits dest: row_numbers_error)

lemma build_draws_error: "build_draws hs nc rows = Inl e \<Longrightarrow> e = ValueError"
  by (induction rows) (auto simp: Let_def split: if_splits sum.splits dest: build_record_error)

lemma count_numbers_Nil: "count_numbers [] = ([], 0)"
  by (simp add: count_numbers_def)

text \<open>
  Claim C9. The transform fails with \<open>EmptyWorkbook\<close> exactly when the matrix has no
  row; so does \<^verbatim>\<open>parse_xlsx_dataset\<close>, exactly when the reader returns no row. A matrix
  of a header row alone, or whose data rows are all filtered out, gives a dataset
  with \<^verbatim>\<open>rows\<close> 0, no draw, \<^verbatim>\<open>total_numbers\<close> 0, no count, and \<^verbatim>\<open>None\<close> for
  \<^verbatim>\<open>Concurso\<close> and for the date of the draw.
\<close>

theorem empty_workbook_iff:
  assumes "list_all filtered_row rows"
  shows "(dataset_of_matrix stem name now m = Inl EmptyWorkbook) = (m = [])
     \<and> (parse_xlsx_dataset stem name now zf = Inl EmptyWorkbook)
          = (read_first_sheet_rows zf = Inr [])
     \<and> dataset_of_matrix stem name now (h # rows) =
         Inr \<lparr>ds_meta = \<lparr>game_name = stem, source_file = name, generated_at_utc = now,
                         m_rows = 0,
                         number_columns =
                           extract_number_columns (clean_headers (take (header_last h + 1) h))\<rparr>,
              ds_stats = \<lparr>total_numbers = 0, number_counts = []\<rparr>,
              ds_last = \<lparr>Concurso = VNone, Data_do_Sorteio = VNone\<rparr>,
              ds_draws = []\<rparr>"
proof -
  have 1: "(dataset_of_matrix stem name now m = Inl EmptyWorkbook) = (m = [])" for m
    by (auto simp: dataset_of_matrix_def Let_def split: prod.splits sum.splits
        dest: build_draws_error)
  have 3: "(parse_xlsx_dataset stem name now zf = Inl EmptyWorkbook)
          = (read_first_sheet_rows zf = Inr [])"
    using read_first_sheet_rows_error [of zf] 1
    by (auto simp: parse_xlsx_dataset_def split: sum.splits)
  have 4: "dataset_of_matrix stem name now (h # rows) =
         Inr \<lparr>ds_meta = \<lparr>game_name = stem, source_file = name, generated_at_utc = now,
                         m_rows = 0,
                         number_columns =
                           extract_number_columns (clean_headers (take (header_last h + 1) h))\<rparr>,
              ds_stats = \<lparr>total_numbers = 0, number_counts = []\<rparr>,
              ds_last = \<lparr>Concurso = VNone, Data_do_Sorteio = VNone\<rparr>,
              ds_draws = []\<rparr>"
    by (simp add: dataset_of_matrix_def build_draws_all_filtered [OF assms] count_numbers_Nil
        rec_get_def py_or_def del: build_draws.simps)
  from 1 3 4 show ?thesis by blast
qed

theorem empty_workbook_iff_witness:
  "list_all filtered_row [[None, Some ''5'']]
   \<and> dataset_of_matrix ''g'' ''g.xlsx'' ''t'' [] = Inl EmptyWorkbook
   \<and> ds_draws (projr (dataset_of_matrix ''g'' ''g.xlsx'' ''t''
        ([Some ''Concurso'', Some ''Bola1''] # [[None, Some ''5'']]))) = []"
proof -
  have h: "list_all filtered_row [[None, Some ''5'']]"
    by (simp add: filtered_row_def first_blank_def blank_def)
  from empty_workbook_iff [OF h, of "''g''" "''g.xlsx''" "''t''" "[]" _ "[Some ''Concurso'', Some ''Bola1'']"] h
  show ?thesis by simp
qed

section \<open>The cursor and the width of the rows\<close>

lemma row_cells_columns:
  "row_cells shared cs (cells, cur, g) = Inr (cells', cur', g') \<Longrightarrow>
   (\<exists>vs. map (cell_value shared) cs = map Inr vs
         \<and> cells' = store_all cells (zip (cursor_columns cur cs) vs))
   \<and> cur' = (if cs = [] then cur else last (cursor_columns cur cs) + 1)
   \<and> g' = foldl max g (cursor_columns cur cs)"
proof (induction cs arbitrary: cells cur g)
  case Nil
  then show ?case by (simp add: store_all_def)
next
  case (Cons c cs)
  let ?k = "cell_column cur c"
  from Cons.prems obtain v where v: "cell_value shared c = Inr v"
    and rest: "row_cells shared cs (AList.update ?k v cells, ?k + 1, max g ?k) = Inr (cells', cur', g')"
    by (auto simp: Let_def split: sum.splits)
  from Cons.IH [OF rest] obtain vs where vs: "map (cell_value shared) cs = map Inr vs"
    and c': "cells' = store_all (AList.update ?k v cells) (zip (cursor_columns (?k + 1) cs) vs)"
    and cur': "cur' = (if cs = [] then ?k + 1 else last (cursor_columns (?k + 1) cs) + 1)"
    and g': "g' = foldl max (max g ?k) (cursor_columns (?k + 1) cs)"
    by blast
  have "map (cell_value shared) (c # cs) = map Inr (v # vs)" using v vs by simp
  moreover have "cells' = store_all cells (zip (cursor_columns cur (c # cs)) (v # vs))"
    using c' by (simp add: store_all_def)
  ultimately have "\<exists>ws. map (cell_value shared) (c # cs) = map Inr ws
         \<and> cells' = store_all cells (zip (cursor_columns cur (c # cs)) ws)" by blast
  moreover have "cur' = (if c # cs = [] then cur else last (cursor_columns cur (c # cs)) + 1)"
    using cur' by (cases cs) simp_all
  moreover have "g' = foldl max g (cursor_columns cur (c # cs))" using g' by simp
  ultimately show ?case by blast
qed

lemma length_make_row: "length (make_row cells g) = nat (g + 1)"
proof -
  have "length (foldl (\<lambda>row (idx, val). row[nat idx := val]) r cells) = length r" for r
    by (induction cells arbitrary: r) (auto split: prod.splits)
  then show ?thesis by (simp add: make_row_def)
qed

lemma update_not_Nil: "AList.update k v d \<noteq> []"
  by (cases d) auto

lemma row_cells_not_Nil:
  "row_cells shared cs (cells, cur, g) = Inr (cells', cur', g') \<Longrightarrow>
   (cells' = []) = (cs = [] \<and> cells = [])"
proof (induction cs arbitrary: cells cur g)
  case Nil then show ?case by auto
next
  case (Cons c cs)
  from Cons.prems obtain v where
    rest: "row_cells shared cs (AList.update (cell_column cur c) v cells, cell_column cur c + 1, max g (cell_column cur c)) = Inr (cells', cur', g')"
    by (auto simp: Let_def split: sum.splits)
  from Cons.IH [OF rest] show ?case by (simp add: update_not_Nil)
qed

lemma sheet_rows_started:
  "rows0 \<noteq> [] \<Longrightarrow> sheet_rows shared rs (rows0, g) = Inr rows \<Longrightarrow>
   map length rows = map length rows0 @ running_widths g rs"
proof (induction rs arbitrary: rows0 g)
  case Nil then show ?case by simp
next
  case (Cons r rs)
  from Cons.prems(2) obtain cells cur g' where
    rc: "row_cells shared (children_named ''c'' r) ([], 0, g) = Inr (cells, cur, g')"
    by (auto split: sum.splits)
  from row_cells_columns [OF rc] have g': "g' = foldl max g (row_columns r)"
    by (simp add: row_columns_def)
  from Cons.prems rc have "sheet_rows shared rs (rows0 @ [make_row cells g'], g') = Inr rows"
    by simp
  from Cons.IH [OF _ this] show ?case by (simp add: length_make_row g')
qed

lemma sheet_rows_widths:
  "sheet_rows shared rs ([], g) = Inr rows \<Longrightarrow>
   map length rows = running_widths g (dropWhile no_cells rs)"
proof (induction rs arbitrary: g)
  case Nil then show ?case by simp
next
  case (Cons r rs)
  from Cons.prems obtain cells cur g' where
    rc: "row_cells shared (children_named ''c'' r) ([], 0, g) = Inr (cells, cur, g')"
    by (auto split: sum.splits)
  from row_cells_columns [OF rc] have g': "g' = foldl max g (row_columns r)"
    by (simp add: row_columns_def)
  from row_cells_not_Nil [OF rc] have e: "(cells = []) = no_cells r" by (simp add: no_cells_def)
  show ?case
  proof (cases "no_cells r")
    case True
    then have "g' = g" using g' by (simp add: no_cells_def row_columns_def)
    with True e rc Cons.prems have "sheet_rows shared rs ([], g) = Inr rows" by simp
    from Cons.IH [OF this] True show ?thesis by simp
  next
    case False
    with e rc Cons.prems have "sheet_rows shared rs ([make_row cells g'], g') = Inr rows" by simp
    from sheet_rows_started [OF _ this] False show ?thesis by (simp add: length_make_row g')
  qed
qed

lemma running_widths_nth:
  "i < length rs \<Longrightarrow>
   running_widths g rs ! i = nat (foldl max g (concat (map row_columns (take (Suc i) rs))) + 1)"
proof (induction rs arbitrary: g i)
  case Nil then show ?case by simp
next
  case (Cons r rs)
  show ?case
  proof (cases i)
    case 0 then show ?thesis by simp
  next
    case (Suc j)
    with Cons.prems have "j < length rs" by simp
    from Cons.IH [OF this] Suc show ?thesis by simp
  qed
qed

lemma length_running_widths: "length (running_widths g rs) = length rs"
  by (induction rs arbitrary: g) simp_all










lemma length_cursor_columns: "length (cursor_columns cur cs) = length cs"
  by (induction cs arbitrary: cur) simp_all







lemma foldl_max_ge: "g \<le> foldl max g (xs :: int list)"
proof (induction xs arbitrary: g)
  case Nil
  show ?case by simp
next
  case (Cons x xs)
  have "g \<le> max g x" by simp
  also have "\<dots> \<le> foldl max (max g x) xs" by (rule Cons.IH)
  finally show ?case by simp
qed

lemma foldl_max_append_ge: "foldl max g xs \<le> foldl max g (xs @ (ys :: int list))"
  by (simp add: foldl_max_ge)

lemma row_columns_no_cells: "list_all no_cells rs \<Longrightarrow> concat (map row_columns rs) = []"
  by (induction rs) (simp_all add: no_cells_def row_columns_def)

lemma columns_dropWhile:
  "concat (map row_columns (dropWhile no_cells rs)) = concat (map row_columns rs)"
proof -
  have "list_all no_cells (takeWhile no_cells rs)"
    by (induction rs) simp_all
  then have "concat (map row_columns (takeWhile no_cells rs)) = []"
    by (rule row_columns_no_cells)
  moreover have "concat (map row_columns rs)
      = concat (map row_columns (takeWhile no_cells rs))
        @ concat (map row_columns (dropWhile no_cells rs))"
    by (metis concat_append map_append takeWhile_dropWhile_id)
  ultimately show ?thesis by simp
qed

text \<open>
  Claim C1, as the code has it. A row is built, and stays, as wide as one plus the
  greatest column index seen in the sheet up to and including that row: the rows
  are not widened afterwards. So the widths never decrease, the last row is as wide
  as one plus the greatest column index of the whole sheet, and no row is wider
  than the last. Row elements with no cell before the first row with cells give no
  row.
\<close>

theorem row_widths_running_max:
  assumes "read_first_sheet_rows zf = Inr rows"
    and "first_sheet_path zf = Inr sheet_path"
    and "read_xml zf sheet_path = Inr doc"
    and "i < length rows"
  shows "map length rows = running_widths 0 (dropWhile no_cells (sheet_row_elements doc))
     \<and> length (rows ! i) =
         nat (foldl max 0 (concat (map row_columns
               (take (Suc i) (dropWhile no_cells (sheet_row_elements doc))))) + 1)
     \<and> length (last rows) =
         nat (foldl max 0 (concat (map row_columns (sheet_row_elements doc))) + 1)
     \<and> length (rows ! i) \<le> length (last rows)"
proof -
  let ?rs = "dropWhile no_cells (sheet_row_elements doc)"
  let ?w = "\<lambda>n. nat (foldl max 0 (concat (map row_columns (take n ?rs))) + 1)"
  from assms(1-3) obtain shared where
    "sheet_rows shared (sheet_row_elements doc) ([], 0) = Inr rows"
    by (auto simp: read_first_sheet_rows_def split: sum.splits)
  then have widths: "map length rows = running_widths 0 ?rs"
    by (rule sheet_rows_widths)
  then have len: "length rows = length ?rs"
    using length_running_widths [of 0 ?rs] length_map [of length rows] by simp
  have nth: "length (rows ! j) = ?w (Suc j)" if "j < length rows" for j
  proof -
    from that have "length (rows ! j) = map length rows ! j" by simp
    also have "\<dots> = running_widths 0 ?rs ! j" by (simp only: widths)
    also have "\<dots> = ?w (Suc j)" using that len by (simp add: running_widths_nth)
    finally show ?thesis .
  qed
  from assms(4) have ne: "rows \<noteq> []" by auto
  then have "last rows = rows ! (length rows - 1)" by (rule last_conv_nth)
  moreover from ne have l: "length rows - 1 < length rows" by simp
  ultimately have "length (last rows) = ?w (Suc (length rows - 1))"
    using nth [OF l] by simp
  moreover have "Suc (length rows - 1) = length ?rs"
  proof -
    from ne have "Suc (length rows - 1) = length rows" by simp
    with len show ?thesis by (simp only:)
  qed
  ultimately have last_w: "length (last rows) =
      nat (foldl max 0 (concat (map row_columns (sheet_row_elements doc))) + 1)"
    by (simp add: columns_dropWhile)
  have "concat (map row_columns ?rs)
      = concat (map row_columns (take (Suc i) ?rs)) @ concat (map row_columns (drop (Suc i) ?rs))"
    by (metis append_take_drop_id concat_append map_append)
  then have "foldl max 0 (concat (map row_columns (take (Suc i) ?rs)))
      \<le> foldl max 0 (concat (map row_columns ?rs))"
    using foldl_max_append_ge
      [of 0 "concat (map row_columns (take (Suc i) ?rs))" "concat (map row_columns (drop (Suc i) ?rs))"]
    by simp
  then have "length (rows ! i) \<le> length (last rows)"
    using nth [OF assms(4)] last_w by (simp add: columns_dropWhile)
  with widths nth [OF assms(4)] last_w show ?thesis by blast
qed

theorem row_widths_running_max_witness:
  "read_first_sheet_rows
     (archive_of [row_el_of [cell_el [] ''a''], row_el_of [cell_el [] ''b'', cell_el [] ''c'']])
     = Inr [[Some ''a''], [Some ''b'', Some ''c'']]
   \<and> first_sheet_path
       (archive_of [row_el_of [cell_el [] ''a''], row_el_of [cell_el [] ''b'', cell_el [] ''c'']])
     = Inr ''xl/worksheets/sheet1.xml''
   \<and> read_xml
       (archive_of [row_el_of [cell_el [] ''a''], row_el_of [cell_el [] ''b'', cell_el [] ''c'']])
       ''xl/worksheets/sheet1.xml''
     = Inr (sheet_doc [row_el_of [cell_el [] ''a''], row_el_of [cell_el [] ''b'', cell_el [] ''c'']])
   \<and> (0::nat) < length [[Some ''a''], [Some ''b'', Some ''c'']]
   \<and> map length [[Some ''a''], [Some ''b'', Some ''c'']]
     = running_widths 0 (dropWhile no_cells (sheet_row_elements
         (sheet_doc [row_el_of [cell_el [] ''a''], row_el_of [cell_el [] ''b'', cell_el [] ''c'']])))"
proof -
  have h: "read_first_sheet_rows
     (archive_of [row_el_of [cell_el [] ''a''], row_el_of [cell_el [] ''b'', cell_el [] ''c'']])
     = Inr [[Some ''a''], [Some ''b'', Some ''c'']]"
    "first_sheet_path
       (archive_of [row_el_of [cell_el [] ''a''], row_el_of [cell_el [] ''b'', cell_el [] ''c'']])
     = Inr ''xl/worksheets/sheet1.xml''"
    "read_xml
       (archive_of [row_el_of [cell_el [] ''a''], row_el_of [cell_el [] ''b'', cell_el [] ''c'']])
       ''xl/worksheets/sheet1.xml''
     = Inr (sheet_doc [row_el_of [cell_el [] ''a''], row_el_of [cell_el [] ''b'', cell_el [] ''c'']])"
    "(0::nat) < length [[Some ''a''], [Some ''b'', Some ''c'']]"
    by code_simp+
  from row_widths_running_max [OF h]
  have c: "map length [[Some ''a''], [Some ''b'', Some ''c'']]
     = running_widths 0 (dropWhile no_cells (sheet_row_elements
         (sheet_doc [row_el_of [cell_el [] ''a''], row_el_of [cell_el [] ''b'', cell_el [] ''c'']])))"
    by (rule conjunct1)
  from h c show ?thesis by (intro conjI)
qed

text \<open>
  The claim as it is written fails on a sheet whose second row reaches further than
  its first: the greatest column index is 1, and the first row has one column.
\<close>

theorem row_widths_differ_counterexample:
  "read_first_sheet_rows
     (archive_of [row_el_of [cell_el [] ''a''], row_el_of [cell_el [] ''b'', cell_el [] ''c'']])
     = Inr [[Some ''a''], [Some ''b'', Some ''c'']]
   \<and> row_columns (row_el_of [cell_el [] ''b'', cell_el [] ''c'']) = [0, 1]
   \<and> length [Some ''a''] \<noteq> length [Some ''b'', Some ''c'']"
  by code_simp

section \<open>A shared-string index that is no integer\<close>

text \<open>
  Claim C2 does not hold of the code. A cell marked as a shared string whose value
  node is \<^verbatim>\<open>abc\<close> makes \<^verbatim>\<open>int(v_el.text)\<close> raise \<^verbatim>\<open>ValueError\<close>, which nothing catches:
  the reader and \<^verbatim>\<open>parse_xlsx_dataset\<close> fail. The same cell with the index \<^verbatim>\<open>7\<close>, out
  of the range of the shared strings, falls back to the raw text.
\<close>

theorem malformed_shared_index_raises:
  "read_first_sheet_rows (archive_of [row_el_of [cell_el [(''t'', ''s'')] ''abc'']])
     = Inl ValueError
   \<and> parse_xlsx_dataset ''g'' ''g.xlsx'' ''t''
       (archive_of [row_el_of [cell_el [(''t'', ''s'')] ''abc'']]) = Inl ValueError
   \<and> read_first_sheet_rows (archive_of [row_el_of [cell_el [(''t'', ''s'')] ''7'']])
     = Inr [[Some ''7'']]"
  by code_simp

end
